theory Spec2Isabelle
  imports Main "HOL-Library.Word"
begin

section \<open>The tamper-detection fragment of the storage read handler\<close>

text \<open>
  The two sources, \<^verbatim>\<open>src/war.c\<close> and \<^verbatim>\<open>src/war.cpp\<close>, are one inline block of a
  storage command handler. The block works on the global record \<^verbatim>\<open>cur_cmd\<close>, the global
  flag \<^verbatim>\<open>tamperdetected\<close> and the loop counter \<^verbatim>\<open>i\<close>, and calls two functions that are
  defined elsewhere. The declarations of the record, of the counter and of the macros are
  not part of the sources, so the embedding fixes them as follows.

  \<^item> \<^verbatim>\<open>cur_cmd.sector\<close>, \<^verbatim>\<open>cur_cmd.count\<close>, \<^verbatim>\<open>cur_cmd.lun\<close> and \<^verbatim>\<open>cur_cmd.last_result\<close> carry
    their integer value. The block only compares them with the literals 10000, 48000 and
    48195 and takes a minimum, and C evaluates these on the values.
  \<^item> \<^verbatim>\<open>cur_cmd.data\<close> is an array of byte buffers and \<^verbatim>\<open>cur_cmd.data_select\<close> an index
    into it. The buffers are separate arrays: a store into one leaves the others as they
    are. An access outside an array is undefined in C; the model returns an error.
  \<^item> \<^verbatim>\<open>READ_BUFFER_SIZE\<close>, \<^verbatim>\<open>WRITE_BUFFER_SIZE\<close> and \<^verbatim>\<open>SECTOR_SIZE\<close> are parameters.
  \<^item> the counter \<^verbatim>\<open>i\<close> is taken to be wide enough for \<^verbatim>\<open>READ_BUFFER_SIZE\<close>.
\<close>

subsection \<open>Data\<close>

type_synonym byte = "8 word"

type_synonym buffer = "byte list"

record cmd =
  lun :: int
  sector :: int
  count :: int
  data_select :: nat
  data :: "buffer list"
  last_result :: int

text \<open>
  A call of one of the two storage functions, with its four arguments: logical unit,
  sector number, sector count and buffer. The buffer pointer is recorded as the index of
  the buffer in \<^verbatim>\<open>cur_cmd.data\<close> together with the bytes it points to at the call.
\<close>

datatype call =
  StorageRead int int int nat buffer
| StorageWrite int int int nat buffer

text \<open>
  The variables of the fragment, the storage device the two functions work on, and the
  calls made so far, oldest first.
\<close>

record 'w state =
  cur_cmd :: cmd
  tamperdetected :: bool
  i :: nat
  disk :: 'w
  calls :: "call list"

text \<open>
  Modelled from the spec: \<^verbatim>\<open>storage_read_sectors\<close> and \<^verbatim>\<open>storage_write_sectors\<close> are
  "defined elsewhere and out of scope"; the spec gives only their call shape, "taking a
  logical unit identifier, sector number, sector count, and buffer pointer". The read
  returns a result code and may change the bytes behind the pointer and the device; the
  write returns a result code and may change the device. Neither touches \<^verbatim>\<open>cur_cmd\<close>,
  the flag or the counter. The three size macros are missing from the sources as well
  and are fields of the same record.
\<close>

record 'w env =
  READ_BUFFER_SIZE :: nat
  WRITE_BUFFER_SIZE :: nat
  SECTOR_SIZE :: nat
  storage_read_sectors :: "'w \<Rightarrow> int \<Rightarrow> int \<Rightarrow> int \<Rightarrow> buffer \<Rightarrow> int \<times> buffer \<times> 'w"
  storage_write_sectors :: "'w \<Rightarrow> int \<Rightarrow> int \<Rightarrow> int \<Rightarrow> buffer \<Rightarrow> int \<times> 'w"

datatype error = DivisionByZero | OutOfBounds

subsection \<open>Macros and library functions\<close>

text \<open>
  Modelled from the spec: the macro \<^verbatim>\<open>MIN\<close> is not defined in the sources. It is the
  usual two-way minimum, \<^verbatim>\<open>((a) < (b) ? (a) : (b))\<close>, which clamps its second argument
  against the first. (\<open>MIN\<close> is a binder of HOL, hence the suffix.)
\<close>

definition MIN_macro :: "int \<Rightarrow> int \<Rightarrow> int" where
  "MIN_macro a b = (if a < b then a else b)"

text \<open>
  Modelled from the spec: the macro \<^verbatim>\<open>IF_MD2\<close> is not defined in the sources. The spec
  says that both storage functions take a logical unit identifier first, so
  \<^verbatim>\<open>IF_MD2(cur_cmd.lun,)\<close> passes \<^verbatim>\<open>cur_cmd.lun\<close>.
\<close>

definition IF_MD2 :: "int \<Rightarrow> int" where
  "IF_MD2 x = x"

text \<open>The quotient of a buffer size by the sector size; a zero divisor is an error.\<close>

definition sectors_in :: "nat \<Rightarrow> nat \<Rightarrow> error + int" where
  "sectors_in bytes secsize =
     (if secsize = 0 then Inl DivisionByZero else Inr (int (bytes div secsize)))"

text \<open>A string literal as the bytes C stores for it: its characters and a final NUL.\<close>

definition c_string :: "string \<Rightarrow> buffer" where
  "c_string s = map of_char s @ [0]"

text \<open>
  \<^verbatim>\<open>strcpy(dst, src)\<close>: copies the bytes of \<^verbatim>\<open>src\<close> up to and including the first NUL to
  the start of \<^verbatim>\<open>dst\<close>. Running off the end of either array is an error. The first
  argument of \<open>strcpy_from\<close> is the position reached.
\<close>

fun strcpy_from :: "nat \<Rightarrow> buffer \<Rightarrow> buffer \<Rightarrow> error + buffer" where
  "strcpy_from k dst [] = Inl OutOfBounds"
| "strcpy_from k dst (c # cs) =
     (if length dst \<le> k then Inl OutOfBounds
      else if c = 0 then Inr (dst[k := 0])
      else strcpy_from (Suc k) (dst[k := c]) cs)"

definition strcpy :: "buffer \<Rightarrow> buffer \<Rightarrow> error + buffer" where
  "strcpy dst src = strcpy_from 0 dst src"

subsection \<open>The statements of the fragment\<close>

text \<open>
  The expression \<^verbatim>\<open>cur_cmd.data[cur_cmd.data_select]\<close>, the selected buffer. It is read
  only where the index has been checked.
\<close>

definition selected :: "'w state \<Rightarrow> buffer" where
  "selected s = data (cur_cmd s) ! data_select (cur_cmd s)"

text \<open>\<^verbatim>\<open>if(cur_cmd.sector>=10000 && cur_cmd.sector<48000) tamperdetected=true;\<close>\<close>

definition range_check :: "'w state \<Rightarrow> 'w state" where
  "range_check s =
     (if 10000 \<le> sector (cur_cmd s) \<and> sector (cur_cmd s) < 48000
      then s\<lparr>tamperdetected := True\<rparr> else s)"

text \<open>
  \<^verbatim>\<open>for(i=0;i<READ_BUFFER_SIZE;i++) cur_cmd.data[cur_cmd.data_select][i]=0xFF;\<close>
  The loop from position \<open>k\<close>; it returns the final counter and the buffer.
\<close>

function fill_loop :: "nat \<Rightarrow> nat \<Rightarrow> buffer \<Rightarrow> error + (nat \<times> buffer)" where
  "fill_loop k n buf =
     (if k < n
      then (if k < length buf then fill_loop (Suc k) n (buf[k := 0xFF]) else Inl OutOfBounds)
      else Inr (k, buf))"
  by pat_completeness auto
termination
  by (relation "measure (\<lambda>(k, n, buf). n - k)") auto

declare fill_loop.simps [simp del]

text \<open>
  The legitimate read: the count is clamped, the selected buffer is passed, and the
  result code is stored in \<^verbatim>\<open>cur_cmd.last_result\<close>.
\<close>

definition legit_read :: "'w env \<Rightarrow> 'w state \<Rightarrow> error + 'w state" where
  "legit_read e s =
     (let c = cur_cmd s in
      case sectors_in (READ_BUFFER_SIZE e) (SECTOR_SIZE e) of
        Inl err \<Rightarrow> Inl err
      | Inr cap \<Rightarrow>
          if length (data c) \<le> data_select c then Inl OutOfBounds
          else
            let n = MIN_macro cap (count c);
                buf = selected s;
                (r, buf', d') = storage_read_sectors e (disk s) (IF_MD2 (lun c)) (sector c) n buf
            in Inr (s\<lparr>cur_cmd := c\<lparr>data := (data c)[data_select c := buf'], last_result := r\<rparr>,
                      disk := d',
                      calls := calls s @ [StorageRead (IF_MD2 (lun c)) (sector c) n (data_select c) buf]\<rparr>))"

text \<open>The wipe of the selected buffer with the loop above.\<close>

definition wipe :: "'w env \<Rightarrow> 'w state \<Rightarrow> error + 'w state" where
  "wipe e s =
     (let c = cur_cmd s in
      if length (data c) \<le> data_select c then
        (if 0 < READ_BUFFER_SIZE e then Inl OutOfBounds else Inr (s\<lparr>i := 0\<rparr>))
      else
        case fill_loop 0 (READ_BUFFER_SIZE e) (selected s) of
          Inl err \<Rightarrow> Inl err
        | Inr (k, buf') \<Rightarrow>
            Inr (s\<lparr>cur_cmd := c\<lparr>data := (data c)[data_select c := buf']\<rparr>, i := k\<rparr>))"

text \<open>\<^verbatim>\<open>strcpy(cur_cmd.data[cur_cmd.data_select], "Never gonna let you down.");\<close>\<close>

definition clobber :: "'w state \<Rightarrow> error + 'w state" where
  "clobber s =
     (let c = cur_cmd s in
      if length (data c) \<le> data_select c then Inl OutOfBounds
      else
        case strcpy (selected s) (c_string ''Never gonna let you down.'') of
          Inl err \<Rightarrow> Inl err
        | Inr buf' \<Rightarrow> Inr (s\<lparr>cur_cmd := c\<lparr>data := (data c)[data_select c := buf']\<rparr>\<rparr>))"

text \<open>
  \<^verbatim>\<open>if(cur_cmd.sector>=48195) storage_write_sectors(...);\<close>
  The value the call returns is not used.
\<close>

definition write_back :: "'w env \<Rightarrow> 'w state \<Rightarrow> error + 'w state" where
  "write_back e s =
     (let c = cur_cmd s in
      if 48195 \<le> sector c then
        case sectors_in (WRITE_BUFFER_SIZE e) (SECTOR_SIZE e) of
          Inl err \<Rightarrow> Inl err
        | Inr cap \<Rightarrow>
            if length (data c) \<le> data_select c then Inl OutOfBounds
            else
              let n = MIN_macro cap (count c);
                  buf = selected s;
                  (r, d') = storage_write_sectors e (disk s) (IF_MD2 (lun c)) (sector c) n buf
              in Inr (s\<lparr>disk := d',
                        calls := calls s @ [StorageWrite (IF_MD2 (lun c)) (sector c) n (data_select c) buf]\<rparr>)
      else Inr s)"

subsection \<open>The two sources\<close>

text \<open>\<^verbatim>\<open>src/war.c\<close>, lines 3 to 29 of the listing.\<close>

definition war_c :: "'w env \<Rightarrow> 'w state \<Rightarrow> error + 'w state" where
  "war_c e s =
     (case legit_read e (range_check s) of
        Inl err \<Rightarrow> Inl err
      | Inr s1 \<Rightarrow>
          if tamperdetected s1 then
            (case wipe e s1 of
               Inl err \<Rightarrow> Inl err
             | Inr s2 \<Rightarrow>
                 (case clobber s2 of
                    Inl err \<Rightarrow> Inl err
                  | Inr s3 \<Rightarrow> write_back e s3))
          else Inr s1)"

text \<open>\<^verbatim>\<open>src/war.cpp\<close>, lines 3 to 30 of the listing.\<close>

definition war_cpp :: "'w env \<Rightarrow> 'w state \<Rightarrow> error + 'w state" where
  "war_cpp e s =
     (case legit_read e (range_check s) of
        Inl err \<Rightarrow> Inl err
      | Inr s1 \<Rightarrow>
          if tamperdetected s1 then
            (case wipe e s1 of
               Inl err \<Rightarrow> Inl err
             | Inr s2 \<Rightarrow>
                 (case clobber s2 of
                    Inl err \<Rightarrow> Inl err
                  | Inr s3 \<Rightarrow> write_back e s3))
          else Inr s1)"

datatype source_file = War_c | War_cpp

fun fragment :: "source_file \<Rightarrow> 'w env \<Rightarrow> 'w state \<Rightarrow> error + 'w state" where
  "fragment War_c = war_c"
| "fragment War_cpp = war_cpp"

subsection \<open>Vocabulary of the statements\<close>

text \<open>The storage calls made between a state and a later one.\<close>

definition issued :: "'w state \<Rightarrow> 'w state \<Rightarrow> call list" where
  "issued s s' = drop (length (calls s)) (calls s')"

fun is_read :: "call \<Rightarrow> bool" where
  "is_read (StorageRead l sec n p b) = True"
| "is_read (StorageWrite l sec n p b) = False"

fun is_write :: "call \<Rightarrow> bool" where
  "is_write (StorageRead l sec n p b) = False"
| "is_write (StorageWrite l sec n p b) = True"

text \<open>The sector count of a call is within the capacity of the buffer it is made for.\<close>

fun count_within :: "'w env \<Rightarrow> call \<Rightarrow> bool" where
  "count_within e (StorageRead l sec n p b) = (n \<le> int (READ_BUFFER_SIZE e div SECTOR_SIZE e))"
| "count_within e (StorageWrite l sec n p b) = (n \<le> int (WRITE_BUFFER_SIZE e div SECTOR_SIZE e))"

text \<open>
  The value \<^verbatim>\<open>storage_read_sectors\<close> returns for the arguments of the fragment: result
  code, bytes left in the buffer, device.
\<close>

definition read_outcome :: "'w env \<Rightarrow> 'w state \<Rightarrow> int \<times> buffer \<times> 'w" where
  "read_outcome e s =
     storage_read_sectors e (disk s) (IF_MD2 (lun (cur_cmd s))) (sector (cur_cmd s))
       (MIN_macro (int (READ_BUFFER_SIZE e div SECTOR_SIZE e)) (count (cur_cmd s))) (selected s)"

text \<open>
  The states on which C defines the behaviour of the fragment: the sector size is not
  zero, the index selects a buffer, and, where the buffer is wiped, the buffer the read
  leaves holds \<^verbatim>\<open>READ_BUFFER_SIZE\<close> bytes and the copied string.
\<close>

definition defined_on :: "'w env \<Rightarrow> 'w state \<Rightarrow> bool" where
  "defined_on e s \<longleftrightarrow>
     SECTOR_SIZE e \<noteq> 0 \<and> data_select (cur_cmd s) < length (data (cur_cmd s)) \<and>
     (tamperdetected (range_check s) \<longrightarrow>
        READ_BUFFER_SIZE e \<le> length (fst (snd (read_outcome e s))) \<and>
        length (c_string ''Never gonna let you down.'') \<le> length (fst (snd (read_outcome e s))))"

text \<open>
  Closed forms, shown below to be what the code computes: the bytes the loop and the
  string copy leave of a buffer, and the states the fragment leaves when it only reads
  and when it also wipes.
\<close>

definition clobbered :: "'w env \<Rightarrow> buffer \<Rightarrow> buffer" where
  "clobbered e buf = c_string ''Never gonna let you down.'' @
     drop 26 (replicate (READ_BUFFER_SIZE e) 0xFF @ drop (READ_BUFFER_SIZE e) buf)"

definition read_call :: "'w env \<Rightarrow> 'w state \<Rightarrow> call" where
  "read_call e s =
     StorageRead (lun (cur_cmd s)) (sector (cur_cmd s))
       (MIN_macro (int (READ_BUFFER_SIZE e div SECTOR_SIZE e)) (count (cur_cmd s)))
       (data_select (cur_cmd s)) (selected s)"

definition write_call :: "'w env \<Rightarrow> 'w state \<Rightarrow> buffer \<Rightarrow> call" where
  "write_call e s buf =
     StorageWrite (lun (cur_cmd s)) (sector (cur_cmd s))
       (MIN_macro (int (WRITE_BUFFER_SIZE e div SECTOR_SIZE e)) (count (cur_cmd s)))
       (data_select (cur_cmd s)) buf"

definition quiet_result :: "'w env \<Rightarrow> 'w state \<Rightarrow> 'w state" where
  "quiet_result e s =
     s\<lparr>cur_cmd := (cur_cmd s)\<lparr>data := (data (cur_cmd s))[data_select (cur_cmd s) :=
                                   fst (snd (read_outcome e s))],
                               last_result := fst (read_outcome e s)\<rparr>,
       disk := snd (snd (read_outcome e s)),
       calls := calls s @ [read_call e s]\<rparr>"

definition tamper_result :: "'w env \<Rightarrow> 'w state \<Rightarrow> 'w state" where
  "tamper_result e s =
     s\<lparr>cur_cmd := (cur_cmd s)\<lparr>data := (data (cur_cmd s))[data_select (cur_cmd s) :=
                                   clobbered e (fst (snd (read_outcome e s)))],
                               last_result := fst (read_outcome e s)\<rparr>,
       tamperdetected := True,
       i := READ_BUFFER_SIZE e,
       disk := (if 48195 \<le> sector (cur_cmd s)
                then snd (storage_write_sectors e (snd (snd (read_outcome e s)))
                       (IF_MD2 (lun (cur_cmd s))) (sector (cur_cmd s))
                       (MIN_macro (int (WRITE_BUFFER_SIZE e div SECTOR_SIZE e)) (count (cur_cmd s)))
                       (clobbered e (fst (snd (read_outcome e s)))))
                else snd (snd (read_outcome e s))),
       calls := calls s @ read_call e s #
                (if 48195 \<le> sector (cur_cmd s)
                 then [write_call e s (clobbered e (fst (snd (read_outcome e s))))]
                 else [])\<rparr>"

subsection \<open>A small device for concrete runs\<close>

text \<open>
  Buffers of 32 bytes, sectors of 8 bytes; the device is the list of the sectors written
  so far. A read fills the buffer with \<open>0x2A\<close> and returns 7, a write returns 9.
\<close>

definition demo_env :: "(int \<times> buffer) list env" where
  "demo_env =
     \<lparr>READ_BUFFER_SIZE = 32, WRITE_BUFFER_SIZE = 16, SECTOR_SIZE = 8,
      storage_read_sectors = (\<lambda>d l sec n buf. (7, map (\<lambda>_. 0x2A) buf, d)),
      storage_write_sectors = (\<lambda>d l sec n buf. (9, (sec, buf) # d))\<rparr>"

definition demo_state :: "int \<Rightarrow> bool \<Rightarrow> (int \<times> buffer) list state" where
  "demo_state sec flag =
     \<lparr>cur_cmd = \<lparr>lun = 0, sector = sec, count = 100, data_select = 1,
                 data = [replicate 32 0, replicate 32 1], last_result = 0\<rparr>,
      tamperdetected = flag, i = 0, disk = [], calls = []\<rparr>"

section \<open>The loop and the string copy in closed form\<close>

lemma fill_loop_ok:
  "k \<le> n \<Longrightarrow> n \<le> length buf \<Longrightarrow>
   fill_loop k n buf = Inr (n, take k buf @ replicate (n - k) 0xFF @ drop n buf)"
proof (induction k n buf rule: fill_loop.induct)
  case (1 k n buf)
  show ?case
  proof (cases "k < n")
    case True
    with "1.prems" have kl: "k < length buf" by simp
    have "fill_loop k n buf = fill_loop (Suc k) n (buf[k := 0xFF])"
      using True kl by (subst fill_loop.simps) simp
    also have "\<dots> = Inr (n, take (Suc k) (buf[k := 0xFF]) @ replicate (n - Suc k) 0xFF @ drop n (buf[k := 0xFF]))"
      using "1.IH" [OF True kl] True "1.prems" by simp
    also have "take (Suc k) (buf[k := 0xFF]) = take k buf @ [0xFF]"
      using kl by (simp add: take_Suc_conv_app_nth)
    also have "drop n (buf[k := 0xFF]) = drop n buf"
      using True by simp
    also have "(take k buf @ [0xFF]) @ replicate (n - Suc k) 0xFF @ drop n buf
             = take k buf @ replicate (n - k) 0xFF @ drop n buf"
      using True by (simp add: Suc_diff_Suc flip: replicate_Suc)
    finally show ?thesis .
  next
    case False
    with "1.prems" have "k = n" by simp
    then show ?thesis by (subst fill_loop.simps) simp
  qed
qed

lemma fill_loop_overflow:
  "k < n \<Longrightarrow> length buf < n \<Longrightarrow> fill_loop k n buf = Inl OutOfBounds"
proof (induction k n buf rule: fill_loop.induct)
  case (1 k n buf)
  show ?case
  proof (cases "k < length buf")
    case True
    then have "Suc k < n" using "1.prems" by simp
    then show ?thesis
      using "1.IH" [OF "1.prems"(1) True] "1.prems" True
      by (subst fill_loop.simps) simp
  next
    case False
    then show ?thesis using "1.prems" by (subst fill_loop.simps) simp
  qed
qed

lemma fill_loop_0:
  "fill_loop 0 n buf =
     (if n \<le> length buf then Inr (n, replicate n 0xFF @ drop n buf) else Inl OutOfBounds)"
proof (cases "n \<le> length buf")
  case True
  then show ?thesis using fill_loop_ok [of 0 n buf] by simp
next
  case False
  then show ?thesis using fill_loop_overflow [of 0 n buf] by simp
qed

lemma strcpy_from_ok:
  "0 \<notin> set xs \<Longrightarrow> k + length xs < length dst \<Longrightarrow>
   strcpy_from k dst (xs @ 0 # ys) = Inr (take k dst @ xs @ 0 # drop (Suc (k + length xs)) dst)"
proof (induction xs arbitrary: k dst)
  case Nil
  then show ?case by (simp add: upd_conv_take_nth_drop)
next
  case (Cons x xs)
  have "strcpy_from k dst ((x # xs) @ 0 # ys) = strcpy_from (Suc k) (dst[k := x]) (xs @ 0 # ys)"
    using Cons.prems by simp
  also have "\<dots> = Inr (take (Suc k) (dst[k := x]) @ xs @ 0 # drop (Suc (Suc k + length xs)) (dst[k := x]))"
    using Cons.prems by (intro Cons.IH) simp_all
  also have "take (Suc k) (dst[k := x]) = take k dst @ [x]"
    using Cons.prems by (simp add: take_Suc_conv_app_nth)
  also have "drop (Suc (Suc k + length xs)) (dst[k := x]) = drop (Suc (k + length (x # xs))) dst"
    by simp
  finally show ?case by simp
qed

lemma strcpy_from_overflow:
  "0 \<notin> set xs \<Longrightarrow> length dst \<le> k + length xs \<Longrightarrow>
   strcpy_from k dst (xs @ 0 # ys) = Inl OutOfBounds"
proof (induction xs arbitrary: k dst)
  case Nil
  then show ?case by simp
next
  case (Cons x xs)
  then show ?case by (cases "length dst \<le> k") simp_all
qed

lemma literal_no_nul: "(0::byte) \<notin> set (map of_char ''Never gonna let you down.'')"
  by (simp add: of_char_def)

lemma strcpy_literal:
  "strcpy dst (c_string ''Never gonna let you down.'') =
     (if 26 \<le> length dst
      then Inr (c_string ''Never gonna let you down.'' @ drop 26 dst)
      else Inl OutOfBounds)"
proof -
  define xs :: buffer where "xs = map of_char ''Never gonna let you down.''"
  have nz: "0 \<notin> set xs"
    unfolding xs_def by (rule literal_no_nul)
  have len: "length xs = 25"
    unfolding xs_def by simp
  have cs: "c_string ''Never gonna let you down.'' = xs @ [0]"
    unfolding xs_def c_string_def ..
  show ?thesis
  proof (cases "26 \<le> length dst")
    case True
    then have "strcpy_from 0 dst (xs @ [0]) = Inr (take 0 dst @ xs @ 0 # drop (Suc (0 + length xs)) dst)"
      using len by (intro strcpy_from_ok [OF nz]) simp
    then show ?thesis
      using True len unfolding strcpy_def cs by simp
  next
    case False
    then have "strcpy_from 0 dst (xs @ [0]) = Inl OutOfBounds"
      using len by (intro strcpy_from_overflow [OF nz]) simp
    then show ?thesis
      using False unfolding strcpy_def cs by simp
  qed
qed

lemma length_c_string: "length (c_string s) = Suc (length s)"
  by (simp add: c_string_def)

section \<open>The statements in closed form\<close>

lemma fragment_unfold:
  "fragment f e s =
     (case legit_read e (range_check s) of
        Inl err \<Rightarrow> Inl err
      | Inr s1 \<Rightarrow>
          if tamperdetected s1 then
            (case wipe e s1 of
               Inl err \<Rightarrow> Inl err
             | Inr s2 \<Rightarrow>
                 (case clobber s2 of
                    Inl err \<Rightarrow> Inl err
                  | Inr s3 \<Rightarrow> write_back e s3))
          else Inr s1)"
  by (cases f) (simp_all add: war_c_def war_cpp_def)

lemma legit_read_eq:
  "legit_read e s =
     (if SECTOR_SIZE e = 0 then Inl DivisionByZero
      else if length (data (cur_cmd s)) \<le> data_select (cur_cmd s) then Inl OutOfBounds
      else Inr (quiet_result e s))"
  by (simp add: legit_read_def sectors_in_def read_outcome_def quiet_result_def read_call_def
      IF_MD2_def Let_def split: prod.splits)

lemma wipe_eq:
  "data_select (cur_cmd s) < length (data (cur_cmd s)) \<Longrightarrow>
   wipe e s =
     (if READ_BUFFER_SIZE e \<le> length (selected s)
      then Inr (s\<lparr>cur_cmd := (cur_cmd s)\<lparr>data := (data (cur_cmd s))[data_select (cur_cmd s) :=
                     replicate (READ_BUFFER_SIZE e) 0xFF @ drop (READ_BUFFER_SIZE e) (selected s)]\<rparr>,
                   i := READ_BUFFER_SIZE e\<rparr>)
      else Inl OutOfBounds)"
  by (simp add: wipe_def fill_loop_0 Let_def)

lemma clobber_eq:
  "data_select (cur_cmd s) < length (data (cur_cmd s)) \<Longrightarrow>
   clobber s =
     (if 26 \<le> length (selected s)
      then Inr (s\<lparr>cur_cmd := (cur_cmd s)\<lparr>data := (data (cur_cmd s))[data_select (cur_cmd s) :=
                     c_string ''Never gonna let you down.'' @ drop 26 (selected s)]\<rparr>\<rparr>)
      else Inl OutOfBounds)"
  by (simp add: clobber_def strcpy_literal Let_def)

lemma write_back_eq:
  "SECTOR_SIZE e \<noteq> 0 \<Longrightarrow> data_select (cur_cmd s) < length (data (cur_cmd s)) \<Longrightarrow>
   write_back e s =
     (if 48195 \<le> sector (cur_cmd s)
      then Inr (s\<lparr>disk := snd (storage_write_sectors e (disk s) (IF_MD2 (lun (cur_cmd s)))
                       (sector (cur_cmd s))
                       (MIN_macro (int (WRITE_BUFFER_SIZE e div SECTOR_SIZE e)) (count (cur_cmd s)))
                       (selected s)),
                   calls := calls s @ [write_call e s (selected s)]\<rparr>)
      else Inr s)"
  by (simp add: write_back_def sectors_in_def write_call_def IF_MD2_def Let_def split: prod.splits)

lemma range_check_quiet: "\<not> tamperdetected (range_check s) \<Longrightarrow> range_check s = s"
  by (auto simp add: range_check_def split: if_splits)

lemma range_check_cmd [simp]: "cur_cmd (range_check s) = cur_cmd s"
  and range_check_disk [simp]: "disk (range_check s) = disk s"
  and range_check_calls [simp]: "calls (range_check s) = calls s"
  and range_check_i [simp]: "i (range_check s) = i s"
  by (simp_all add: range_check_def)

lemma range_check_selected [simp]: "selected (range_check s) = selected s"
  by (simp add: selected_def)

lemma range_check_outcome [simp]: "read_outcome e (range_check s) = read_outcome e s"
  by (simp add: read_outcome_def)

lemma range_check_read_call [simp]: "read_call e (range_check s) = read_call e s"
  by (simp add: read_call_def)

lemma fragment_quiet:
  assumes "\<not> tamperdetected (range_check s)"
  shows "fragment f e s = legit_read e s"
proof -
  have same: "range_check s = s"
    using assms by (rule range_check_quiet)
  then have "\<not> tamperdetected s"
    using assms by simp
  then show ?thesis
    by (simp add: fragment_unfold same legit_read_eq quiet_result_def)
qed

lemma fragment_tamper:
  assumes "tamperdetected (range_check s)" and "defined_on e s"
  shows "fragment f e s = Inr (tamper_result e s)"
  using assms
  by (simp add: fragment_unfold legit_read_eq wipe_eq clobber_eq write_back_eq defined_on_def
      quiet_result_def tamper_result_def write_call_def selected_def clobbered_def length_c_string)

lemma fragment_undefined:
  assumes "\<not> defined_on e s"
  shows "\<exists>err. fragment f e s = Inl err"
proof (cases "tamperdetected (range_check s)")
  case False
  then show ?thesis
    using assms by (auto simp add: fragment_quiet legit_read_eq defined_on_def)
next
  case True
  then show ?thesis
    using assms
    by (auto simp add: fragment_unfold legit_read_eq wipe_eq clobber_eq defined_on_def
        quiet_result_def selected_def length_c_string)
qed

text \<open>The fragment returns exactly on the states where C defines it.\<close>

lemma fragment_returns_iff: "(\<exists>s'. fragment f e s = Inr s') \<longleftrightarrow> defined_on e s"
proof
  assume "\<exists>s'. fragment f e s = Inr s'"
  then show "defined_on e s"
    using fragment_undefined [of e s f] by (cases "defined_on e s") auto
next
  assume d: "defined_on e s"
  show "\<exists>s'. fragment f e s = Inr s'"
  proof (cases "tamperdetected (range_check s)")
    case True
    then show ?thesis using fragment_tamper [OF True d, of f] by simp
  next
    case False
    then show ?thesis using d by (simp add: fragment_quiet legit_read_eq defined_on_def)
  qed
qed

lemma fragment_cases:
  assumes "fragment f e s = Inr s'"
  obtains (quiet) "\<not> tamperdetected (range_check s)" and "\<not> tamperdetected s"
      and "defined_on e s" and "s' = quiet_result e s"
    | (tamper) "tamperdetected (range_check s)" and "defined_on e s" and "s' = tamper_result e s"
proof (cases "tamperdetected (range_check s)")
  case True
  have d: "defined_on e s"
    using assms fragment_returns_iff [of f e s] by blast
  then show ?thesis
    using assms True tamper fragment_tamper [OF True d, of f] by simp
next
  case False
  have d: "defined_on e s"
    using assms fragment_returns_iff [of f e s] by blast
  have "\<not> tamperdetected s"
    using False range_check_quiet [OF False] by simp
  moreover have "s' = quiet_result e s"
    using assms False by (simp add: fragment_quiet legit_read_eq split: if_splits)
  ultimately show ?thesis
    using False d quiet by simp
qed

lemma issued_append: "calls s' = calls s @ cs \<Longrightarrow> issued s s' = cs"
  by (simp add: issued_def)

lemma selected_quiet_result:
  "data_select (cur_cmd s) < length (data (cur_cmd s)) \<Longrightarrow>
   selected (quiet_result e s) = fst (snd (read_outcome e s))"
  by (simp add: quiet_result_def selected_def)

lemma selected_tamper_result:
  "data_select (cur_cmd s) < length (data (cur_cmd s)) \<Longrightarrow>
   selected (tamper_result e s) = clobbered e (fst (snd (read_outcome e s)))"
  by (simp add: tamper_result_def selected_def)

lemma issued_quiet: "issued s (quiet_result e s) = [read_call e s]"
  by (rule issued_append) (simp add: quiet_result_def)

lemma issued_tamper:
  "issued s (tamper_result e s) =
     read_call e s #
     (if 48195 \<le> sector (cur_cmd s)
      then [write_call e s (clobbered e (fst (snd (read_outcome e s))))] else [])"
  by (rule issued_append) (simp add: tamper_result_def)

lemma is_write_calls [simp]: "\<not> is_write (read_call e s)" "is_write (write_call e s buf)"
  and is_read_calls [simp]: "is_read (read_call e s)" "\<not> is_read (write_call e s buf)"
  by (simp_all add: read_call_def write_call_def)

lemma defined_on_select: "defined_on e s \<Longrightarrow> data_select (cur_cmd s) < length (data (cur_cmd s))"
  by (simp add: defined_on_def)

section \<open>Concrete runs\<close>

lemma demo_defined: "defined_on demo_env (demo_state sec flag)"
  by (simp add: defined_on_def demo_env_def demo_state_def read_outcome_def selected_def
      length_c_string)

lemma demo_returns: "\<exists>s'. fragment f demo_env (demo_state sec flag) = Inr s'"
  using demo_defined by (simp add: fragment_returns_iff)

lemma demo_outcome:
  "read_outcome demo_env (demo_state sec flag) = (7, replicate 32 0x2A, [])"
  by (simp add: read_outcome_def demo_env_def demo_state_def selected_def)

lemma demo_sector: "sector (cur_cmd (demo_state sec flag)) = sec"
  and demo_flag: "tamperdetected (demo_state sec flag) = flag"
  by (simp_all add: demo_state_def)

lemma demo_read_call:
  "read_call demo_env (demo_state sec flag) = StorageRead 0 sec 4 1 (replicate 32 1)"
  by (simp add: read_call_def demo_env_def demo_state_def selected_def MIN_macro_def)

lemma demo_write_call:
  "write_call demo_env (demo_state sec flag) buf = StorageWrite 0 sec 2 1 buf"
  by (simp add: write_call_def demo_env_def demo_state_def MIN_macro_def)

lemma demo_select:
  "data_select (cur_cmd (demo_state sec flag)) < length (data (cur_cmd (demo_state sec flag)))"
  by (simp add: demo_state_def)

lemma demo_clobbered:
  "clobbered demo_env (replicate 32 0x2A) = c_string ''Never gonna let you down.'' @ replicate 6 0xFF"
  by (simp add: clobbered_def demo_env_def)

section \<open>The claims\<close>

text \<open>
  C1. If \<^verbatim>\<open>cur_cmd.sector\<close> is at least 10000 and less than 48000, the fragment sets
  \<^verbatim>\<open>tamperdetected\<close>; for a sector outside that range the range check leaves the flag as
  it was; and nothing after the range check changes the flag.
\<close>

theorem tamper_flag_range:
  "(10000 \<le> sector (cur_cmd s) \<and> sector (cur_cmd s) < 48000 \<longrightarrow> tamperdetected (range_check s)) \<and>
   (\<not> (10000 \<le> sector (cur_cmd s) \<and> sector (cur_cmd s) < 48000) \<longrightarrow>
      tamperdetected (range_check s) = tamperdetected s) \<and>
   (fragment f e s = Inr s' \<longrightarrow> tamperdetected s' = tamperdetected (range_check s))"
proof -
  have "tamperdetected s' = tamperdetected (range_check s)" if "fragment f e s = Inr s'"
    using that by (cases rule: fragment_cases) (simp_all add: quiet_result_def tamper_result_def)
  then show ?thesis
    by (simp add: range_check_def)
qed

theorem tamper_flag_range_witness:
  "tamperdetected (range_check (demo_state 20000 False)) \<and>
   \<not> tamperdetected (range_check (demo_state 48000 False)) \<and>
   \<not> tamperdetected (range_check (demo_state 9999 False)) \<and>
   (\<exists>s'. fragment War_c demo_env (demo_state 10000 False) = Inr s' \<and> tamperdetected s')"
proof -
  obtain s' where r: "fragment War_c demo_env (demo_state 10000 False) = Inr s'"
    using demo_returns by blast
  have "tamperdetected s'"
    using tamper_flag_range [of "demo_state 10000 False" War_c demo_env s'] r
    by (simp add: demo_sector)
  moreover have "tamperdetected (range_check (demo_state 20000 False))"
    using tamper_flag_range [of "demo_state 20000 False" War_c demo_env s']
    by (simp add: demo_sector)
  moreover have "\<not> tamperdetected (range_check (demo_state 48000 False))"
    using tamper_flag_range [of "demo_state 48000 False" War_c demo_env s']
    by (simp add: demo_sector demo_flag)
  moreover have "\<not> tamperdetected (range_check (demo_state 9999 False))"
    using tamper_flag_range [of "demo_state 9999 False" War_c demo_env s']
    by (simp add: demo_sector demo_flag)
  ultimately show ?thesis
    using r by blast
qed

text \<open>
  C2. When \<^verbatim>\<open>tamperdetected\<close> holds after the range check, and the buffer the read leaves
  holds \<^verbatim>\<open>READ_BUFFER_SIZE\<close> bytes, at least the 26 of the string, the loop overwrites the
  first \<^verbatim>\<open>READ_BUFFER_SIZE\<close> bytes of the selected buffer with \<open>0xFF\<close>, then \<^verbatim>\<open>strcpy\<close>
  puts the string and its NUL at the start; the buffer the fragment leaves is the string,
  the NUL and \<open>0xFF\<close> bytes up to \<^verbatim>\<open>READ_BUFFER_SIZE\<close>.
\<close>

theorem wipe_then_clobber:
  assumes "legit_read e (range_check s) = Inr s1"
    and "tamperdetected (range_check s)"
    and "READ_BUFFER_SIZE e \<le> length (selected s1)"
    and "26 \<le> READ_BUFFER_SIZE e"
  shows "\<exists>s2 s3 s'.
     wipe e s1 = Inr s2 \<and>
     selected s2 = replicate (READ_BUFFER_SIZE e) 0xFF @ drop (READ_BUFFER_SIZE e) (selected s1) \<and>
     clobber s2 = Inr s3 \<and>
     selected s3 = c_string ''Never gonna let you down.'' @
                   replicate (READ_BUFFER_SIZE e - 26) 0xFF @ drop (READ_BUFFER_SIZE e) (selected s1) \<and>
     fragment f e s = Inr s' \<and> selected s' = selected s3"
proof -
  from assms(1) have ss: "SECTOR_SIZE e \<noteq> 0"
    and ds: "data_select (cur_cmd s) < length (data (cur_cmd s))"
    and s1: "s1 = quiet_result e (range_check s)"
    by (auto simp add: legit_read_eq split: if_splits)
  have sel1: "selected s1 = fst (snd (read_outcome e s))"
    using ds by (simp add: s1 quiet_result_def selected_def)
  have ds1: "data_select (cur_cmd s1) < length (data (cur_cmd s1))"
    using ds by (simp add: s1 quiet_result_def)
  define s2 where "s2 = s1\<lparr>cur_cmd := (cur_cmd s1)\<lparr>data := (data (cur_cmd s1))[data_select (cur_cmd s1) :=
       replicate (READ_BUFFER_SIZE e) 0xFF @ drop (READ_BUFFER_SIZE e) (selected s1)]\<rparr>,
     i := READ_BUFFER_SIZE e\<rparr>"
  have w: "wipe e s1 = Inr s2"
    using assms(3) by (simp add: wipe_eq [OF ds1] s2_def)
  have sel2: "selected s2 = replicate (READ_BUFFER_SIZE e) 0xFF @ drop (READ_BUFFER_SIZE e) (selected s1)"
    using ds1 by (simp add: s2_def selected_def)
  have ds2: "data_select (cur_cmd s2) < length (data (cur_cmd s2))"
    using ds1 by (simp add: s2_def)
  define s3 where "s3 = s2\<lparr>cur_cmd := (cur_cmd s2)\<lparr>data := (data (cur_cmd s2))[data_select (cur_cmd s2) :=
       c_string ''Never gonna let you down.'' @ drop 26 (selected s2)]\<rparr>\<rparr>"
  have len2: "26 \<le> length (selected s2)"
    using assms(3,4) by (simp add: sel2)
  have c: "clobber s2 = Inr s3"
    using len2 by (simp add: clobber_eq [OF ds2] s3_def)
  have "drop 26 (selected s2) =
        replicate (READ_BUFFER_SIZE e - 26) 0xFF @ drop (READ_BUFFER_SIZE e) (selected s1)"
    using assms(4) by (simp add: sel2)
  then have sel3: "selected s3 = c_string ''Never gonna let you down.'' @
      replicate (READ_BUFFER_SIZE e - 26) 0xFF @ drop (READ_BUFFER_SIZE e) (selected s1)"
    using ds2 by (simp add: s3_def selected_def)
  have d: "defined_on e s"
    using ss ds assms(3,4) by (simp add: defined_on_def sel1 [symmetric] length_c_string)
  have "fragment f e s = Inr (tamper_result e s)"
    using assms(2) d by (rule fragment_tamper)
  moreover have "selected (tamper_result e s) = c_string ''Never gonna let you down.'' @
      replicate (READ_BUFFER_SIZE e - 26) 0xFF @ drop (READ_BUFFER_SIZE e) (fst (snd (read_outcome e s)))"
    using ds assms(4) by (simp add: tamper_result_def selected_def clobbered_def)
  ultimately have "fragment f e s = Inr (tamper_result e s) \<and> selected (tamper_result e s) = selected s3"
    by (simp add: sel3 sel1)
  then show ?thesis
    using w sel2 c sel3 by blast
qed


theorem wipe_then_clobber_witness:
  "\<exists>s1 s'. legit_read demo_env (range_check (demo_state 20000 False)) = Inr s1 \<and>
     selected s1 = replicate 32 0x2A \<and>
     fragment War_c demo_env (demo_state 20000 False) = Inr s' \<and>
     selected s' = c_string ''Never gonna let you down.'' @ replicate 6 0xFF"
proof -
  have ds: "data_select (cur_cmd (demo_state 20000 False)) < length (data (cur_cmd (demo_state 20000 False)))"
    by (simp add: demo_state_def)
  have r: "legit_read demo_env (range_check (demo_state 20000 False)) =
           Inr (quiet_result demo_env (range_check (demo_state 20000 False)))"
    using ds by (simp add: legit_read_eq demo_env_def)
  have sel: "selected (quiet_result demo_env (range_check (demo_state 20000 False))) = replicate 32 0x2A"
    using ds by (simp add: selected_quiet_result demo_outcome)
  have t: "tamperdetected (range_check (demo_state 20000 False))"
    by (simp add: range_check_def demo_state_def)
  have b: "READ_BUFFER_SIZE demo_env \<le> length (selected (quiet_result demo_env (range_check (demo_state 20000 False))))"
    unfolding sel by (simp add: demo_env_def)
  have n: "26 \<le> READ_BUFFER_SIZE demo_env"
    by (simp add: demo_env_def)
  from wipe_then_clobber [OF r t b n, of War_c]
  obtain s' where "fragment War_c demo_env (demo_state 20000 False) = Inr s'"
    and "selected s' = c_string ''Never gonna let you down.'' @
           replicate (READ_BUFFER_SIZE demo_env - 26) 0xFF @
           drop (READ_BUFFER_SIZE demo_env)
             (selected (quiet_result demo_env (range_check (demo_state 20000 False))))"
    by auto
  then have "fragment War_c demo_env (demo_state 20000 False) = Inr s' \<and>
      selected s' = c_string ''Never gonna let you down.'' @ replicate 6 0xFF"
    unfolding sel by (simp add: demo_env_def)
  with r sel show ?thesis by blast
qed

text \<open>
  C3. The fragment calls \<^verbatim>\<open>storage_write_sectors\<close> if and only if \<^verbatim>\<open>tamperdetected\<close> is set
  after the range check and \<^verbatim>\<open>cur_cmd.sector\<close> is at least 48195; the call then writes
  the clobbered buffer at \<^verbatim>\<open>cur_cmd.sector\<close>, and the device is left as that call
  returns it. Otherwise no write is issued and the device is as the read left it.
\<close>

theorem write_back_iff:
  assumes "fragment f e s = Inr s'"
  shows "((\<exists>c \<in> set (issued s s'). is_write c) \<longleftrightarrow>
            tamperdetected (range_check s) \<and> 48195 \<le> sector (cur_cmd s)) \<and>
         filter is_write (issued s s') =
           (if tamperdetected (range_check s) \<and> 48195 \<le> sector (cur_cmd s)
            then [StorageWrite (lun (cur_cmd s)) (sector (cur_cmd s))
                    (MIN_macro (int (WRITE_BUFFER_SIZE e div SECTOR_SIZE e)) (count (cur_cmd s)))
                    (data_select (cur_cmd s)) (selected s')]
            else []) \<and>
         disk s' =
           (if tamperdetected (range_check s) \<and> 48195 \<le> sector (cur_cmd s)
            then snd (storage_write_sectors e (snd (snd (read_outcome e s)))
                        (lun (cur_cmd s)) (sector (cur_cmd s))
                        (MIN_macro (int (WRITE_BUFFER_SIZE e div SECTOR_SIZE e)) (count (cur_cmd s)))
                        (selected s'))
            else snd (snd (read_outcome e s)))"
  using assms
proof (cases rule: fragment_cases)
  case quiet
  then show ?thesis
    by (simp add: issued_quiet) (simp add: quiet_result_def)
next
  case tamper
  have sel: "selected s' = clobbered e (fst (snd (read_outcome e s)))"
    using tamper by (simp add: selected_tamper_result defined_on_select)
  have log: "issued s s' =
      read_call e s # (if 48195 \<le> sector (cur_cmd s) then [write_call e s (selected s')] else [])"
    unfolding sel using tamper by (simp add: issued_tamper)
  have dev: "disk s' =
      (if 48195 \<le> sector (cur_cmd s)
       then snd (storage_write_sectors e (snd (snd (read_outcome e s)))
                   (lun (cur_cmd s)) (sector (cur_cmd s))
                   (MIN_macro (int (WRITE_BUFFER_SIZE e div SECTOR_SIZE e)) (count (cur_cmd s)))
                   (selected s'))
       else snd (snd (read_outcome e s)))"
    unfolding sel using tamper by (simp add: tamper_result_def IF_MD2_def)
  show ?thesis
    using tamper(1) by (simp add: log dev) (simp add: write_call_def)
qed

theorem write_back_iff_witness:
  "\<exists>s'. fragment War_c demo_env (demo_state 50000 True) = Inr s' \<and>
     filter is_write (issued (demo_state 50000 True) s') =
       [StorageWrite 0 50000 2 1 (c_string ''Never gonna let you down.'' @ replicate 6 0xFF)] \<and>
     disk s' = [(50000, c_string ''Never gonna let you down.'' @ replicate 6 0xFF)]"
proof -
  obtain s' where r: "fragment War_c demo_env (demo_state 50000 True) = Inr s'"
    using demo_returns by blast
  have t: "tamperdetected (range_check (demo_state 50000 True))"
    by (simp add: range_check_def demo_state_def)
  have sel: "selected s' = c_string ''Never gonna let you down.'' @ replicate 6 0xFF"
    using r fragment_tamper [OF t demo_defined, of War_c]
    by (simp add: selected_tamper_result demo_select demo_outcome demo_clobbered)
  have wr: "snd (storage_write_sectors demo_env d l sec n buf) = (sec, buf) # d" for d l sec n buf
    by (simp add: demo_env_def)
  from write_back_iff [OF r]
  have "filter is_write (issued (demo_state 50000 True) s') =
       [StorageWrite 0 50000 2 1 (c_string ''Never gonna let you down.'' @ replicate 6 0xFF)] \<and>
     disk s' = [(50000, c_string ''Never gonna let you down.'' @ replicate 6 0xFF)]"
    using t demo_write_call [of 50000 True "selected s'"]
    by (simp add: demo_sector demo_outcome sel wr write_call_def)
  with r show ?thesis by blast
qed

text \<open>
  C4. If \<^verbatim>\<open>tamperdetected\<close> is false on entry, \<^verbatim>\<open>storage_write_sectors\<close> is not called,
  whatever \<^verbatim>\<open>cur_cmd.sector\<close> is: the flag is set only below 48000 and the write-back
  needs 48195 or more, so the write-back branch cannot be reached.
\<close>

theorem no_write_when_flag_clear:
  assumes "\<not> tamperdetected s" and "fragment f e s = Inr s'"
  shows "\<not> (tamperdetected (range_check s) \<and> 48195 \<le> sector (cur_cmd s)) \<and>
         (\<forall>c \<in> set (issued s s'). \<not> is_write c)"
proof -
  have unreachable: "\<not> (tamperdetected (range_check s) \<and> 48195 \<le> sector (cur_cmd s))"
    using assms(1) by (simp add: range_check_def)
  from assms(2) have "\<forall>c \<in> set (issued s s'). \<not> is_write c"
  proof (cases rule: fragment_cases)
    case quiet
    then show ?thesis by (simp add: issued_quiet)
  next
    case tamper
    then show ?thesis using unreachable by (simp add: issued_tamper)
  qed
  with unreachable show ?thesis ..
qed

theorem no_write_when_flag_clear_witness:
  "\<exists>s'. fragment War_c demo_env (demo_state 20000 False) = Inr s' \<and>
     tamperdetected s' \<and> (\<forall>c \<in> set (issued (demo_state 20000 False) s'). \<not> is_write c)"
proof -
  obtain s' where r: "fragment War_c demo_env (demo_state 20000 False) = Inr s'"
    using demo_returns by blast
  have t: "tamperdetected (range_check (demo_state 20000 False))"
    by (simp add: range_check_def demo_state_def)
  have "tamperdetected s'"
    using r fragment_tamper [OF t demo_defined, of War_c] by (simp add: tamper_result_def)
  moreover have "\<forall>c \<in> set (issued (demo_state 20000 False) s'). \<not> is_write c"
    using no_write_when_flag_clear [OF _ r] by (simp add: demo_flag)
  ultimately show ?thesis using r by blast
qed

text \<open>
  C5. On every state where the fragment is defined, whether or not the tamper detection
  triggers, \<^verbatim>\<open>storage_read_sectors\<close> is called exactly once, with the logical unit,
  \<^verbatim>\<open>cur_cmd.sector\<close>, the clamped count and the selected buffer as it is on entry. The
  read is the first call; the wipe works on the bytes the read leaves, and a write-back
  passes the wiped bytes.
\<close>

theorem read_once_first:
  assumes "defined_on e s"
  shows "\<exists>s'. fragment f e s = Inr s' \<and>
     filter is_read (issued s s') =
       [StorageRead (lun (cur_cmd s)) (sector (cur_cmd s))
          (MIN_macro (int (READ_BUFFER_SIZE e div SECTOR_SIZE e)) (count (cur_cmd s)))
          (data_select (cur_cmd s)) (selected s)] \<and>
     take 1 (issued s s') = filter is_read (issued s s') \<and>
     selected s' =
       (if tamperdetected (range_check s) then clobbered e (fst (snd (read_outcome e s)))
        else fst (snd (read_outcome e s))) \<and>
     (\<forall>c \<in> set (issued s s'). is_write c \<longrightarrow>
        c = write_call e s (clobbered e (fst (snd (read_outcome e s)))))"
proof -
  from assms obtain s' where r: "fragment f e s = Inr s'"
    using fragment_returns_iff [of f e s] by blast
  from r have "filter is_read (issued s s') = [read_call e s] \<and>
     take 1 (issued s s') = filter is_read (issued s s') \<and>
     selected s' =
       (if tamperdetected (range_check s) then clobbered e (fst (snd (read_outcome e s)))
        else fst (snd (read_outcome e s))) \<and>
     (\<forall>c \<in> set (issued s s'). is_write c \<longrightarrow>
        c = write_call e s (clobbered e (fst (snd (read_outcome e s)))))"
  proof (cases rule: fragment_cases)
    case quiet
    then show ?thesis
      by (simp add: issued_quiet selected_quiet_result defined_on_select)
  next
    case tamper
    then show ?thesis
      by (simp add: issued_tamper selected_tamper_result defined_on_select)
  qed
  then show ?thesis
    using r unfolding read_call_def by blast
qed

theorem read_once_first_witness:
  "\<exists>s'. fragment War_cpp demo_env (demo_state 50000 True) = Inr s' \<and>
     filter is_read (issued (demo_state 50000 True) s') = [StorageRead 0 50000 4 1 (replicate 32 1)] \<and>
     take 1 (issued (demo_state 50000 True) s') = [StorageRead 0 50000 4 1 (replicate 32 1)]"
  using read_once_first [where f = War_cpp, OF demo_defined [of 50000 True]]
    demo_read_call [of 50000 True]
  by (auto simp add: read_call_def)

text \<open>
  C6. After the fragment, \<^verbatim>\<open>cur_cmd.last_result\<close> is the result code of the read; the
  value the write-back returns does not reach it.
\<close>

theorem last_result_is_read_result:
  assumes "fragment f e s = Inr s'"
  shows "last_result (cur_cmd s') = fst (read_outcome e s)"
  using assms
  by (cases rule: fragment_cases) (simp_all add: quiet_result_def tamper_result_def)

theorem last_result_is_read_result_witness:
  "\<exists>s'. fragment War_c demo_env (demo_state 50000 True) = Inr s' \<and>
     (\<exists>c \<in> set (issued (demo_state 50000 True) s'). is_write c) \<and>
     last_result (cur_cmd s') = 7"
proof -
  obtain s' where r: "fragment War_c demo_env (demo_state 50000 True) = Inr s'"
    using demo_returns by blast
  have t: "tamperdetected (range_check (demo_state 50000 True))"
    by (simp add: range_check_def demo_state_def)
  have "s' = tamper_result demo_env (demo_state 50000 True)"
    using r fragment_tamper [OF t demo_defined, of War_c] by simp
  then have "\<exists>c \<in> set (issued (demo_state 50000 True) s'). is_write c"
    by (simp add: issued_tamper demo_sector)
  moreover have "last_result (cur_cmd s') = 7"
    using last_result_is_read_result [OF r] by (simp add: demo_outcome)
  ultimately show ?thesis using r by blast
qed

text \<open>
  C7. The embeddings of \<^verbatim>\<open>war.c\<close> and of \<^verbatim>\<open>war.cpp\<close> are the same function from the
  storage functions and the state to the resulting state, hence give the same flag,
  buffers, \<^verbatim>\<open>last_result\<close> and storage calls on every input.
\<close>

theorem war_c_eq_war_cpp:
  "(war_c :: 'w env \<Rightarrow> 'w state \<Rightarrow> error + 'w state) = war_cpp"
  by (intro ext) (simp add: war_c_def war_cpp_def)

theorem war_c_eq_war_cpp_witness:
  "war_c demo_env (demo_state 50000 True) = war_cpp demo_env (demo_state 50000 True) \<and>
   (\<exists>s'. war_cpp demo_env (demo_state 50000 True) = Inr s')"
proof -
  have "\<exists>s'. fragment War_cpp demo_env (demo_state 50000 True) = Inr s'"
    by (rule demo_returns)
  then show ?thesis
    using war_c_eq_war_cpp [where ?'w = "(int \<times> buffer) list"] by simp
qed

text \<open>
  C8. When \<^verbatim>\<open>tamperdetected\<close> does not hold after the range check, the fragment does what
  the legitimate read does and nothing else: the selected buffer holds the bytes the read
  left, \<^verbatim>\<open>last_result\<close> its result code, the only call is the read, and there is no wipe,
  no string copy and no write.
\<close>

theorem quiet_run_only_reads:
  assumes "\<not> tamperdetected (range_check s)" and "fragment f e s = Inr s'"
  shows "fragment f e s = legit_read e s \<and>
     s' = s\<lparr>cur_cmd := (cur_cmd s)\<lparr>data := (data (cur_cmd s))[data_select (cur_cmd s) :=
                                        fst (snd (read_outcome e s))],
                                    last_result := fst (read_outcome e s)\<rparr>,
            disk := snd (snd (read_outcome e s)),
            calls := calls s @
              [StorageRead (lun (cur_cmd s)) (sector (cur_cmd s))
                 (MIN_macro (int (READ_BUFFER_SIZE e div SECTOR_SIZE e)) (count (cur_cmd s)))
                 (data_select (cur_cmd s)) (selected s)]\<rparr> \<and>
     selected s' = fst (snd (read_outcome e s)) \<and>
     (\<forall>c \<in> set (issued s s'). \<not> is_write c)"
proof -
  have "fragment f e s = legit_read e s"
    using assms(1) by (rule fragment_quiet)
  moreover from assms(2) have s': "s' = quiet_result e s" and d: "defined_on e s"
    using assms(1) by (cases rule: fragment_cases; simp)+
  have "s' = s\<lparr>cur_cmd := (cur_cmd s)\<lparr>data := (data (cur_cmd s))[data_select (cur_cmd s) :=
                                        fst (snd (read_outcome e s))],
                                    last_result := fst (read_outcome e s)\<rparr>,
            disk := snd (snd (read_outcome e s)),
            calls := calls s @
              [StorageRead (lun (cur_cmd s)) (sector (cur_cmd s))
                 (MIN_macro (int (READ_BUFFER_SIZE e div SECTOR_SIZE e)) (count (cur_cmd s)))
                 (data_select (cur_cmd s)) (selected s)]\<rparr>"
    unfolding s' quiet_result_def read_call_def ..
  moreover have "selected s' = fst (snd (read_outcome e s))"
    unfolding s' using d by (simp add: selected_quiet_result defined_on_select)
  moreover have "\<forall>c \<in> set (issued s s'). \<not> is_write c"
    unfolding s' by (simp add: issued_quiet)
  ultimately show ?thesis
    by blast
qed

theorem quiet_run_only_reads_witness:
  "\<exists>s'. fragment War_c demo_env (demo_state 500 False) = Inr s' \<and>
     selected s' = replicate 32 0x2A \<and> issued (demo_state 500 False) s' = [StorageRead 0 500 4 1 (replicate 32 1)]"
proof -
  obtain s' where r: "fragment War_c demo_env (demo_state 500 False) = Inr s'"
    using demo_returns by blast
  have t: "\<not> tamperdetected (range_check (demo_state 500 False))"
    by (simp add: range_check_def demo_state_def)
  from quiet_run_only_reads [OF t r]
  have "selected s' = fst (snd (read_outcome demo_env (demo_state 500 False)))"
    and "s' = quiet_result demo_env (demo_state 500 False)"
    unfolding quiet_result_def read_call_def by blast+
  then have "selected s' = replicate 32 0x2A"
    and "calls s' = calls (demo_state 500 False) @ [read_call demo_env (demo_state 500 False)]"
    by (simp_all add: demo_outcome quiet_result_def)
  then have "selected s' = replicate 32 0x2A \<and>
      issued (demo_state 500 False) s' = [StorageRead 0 500 4 1 (replicate 32 1)]"
    by (simp add: issued_append demo_read_call)
  with r show ?thesis by blast
qed

text \<open>
  C9. Whatever \<^verbatim>\<open>cur_cmd.count\<close> is, the count passed to \<^verbatim>\<open>storage_read_sectors\<close> is at
  most \<^verbatim>\<open>READ_BUFFER_SIZE/SECTOR_SIZE\<close> and the count passed to
  \<^verbatim>\<open>storage_write_sectors\<close> is at most \<^verbatim>\<open>WRITE_BUFFER_SIZE/SECTOR_SIZE\<close>.
\<close>

theorem sector_counts_clamped:
  assumes "fragment f e s = Inr s'"
  shows "\<forall>c \<in> set (issued s s'). count_within e c"
  using assms
  by (cases rule: fragment_cases)
     (simp_all add: issued_quiet issued_tamper read_call_def write_call_def MIN_macro_def)

theorem sector_counts_clamped_witness:
  "\<exists>s'. fragment War_c demo_env (demo_state 50000 True) = Inr s' \<and>
     issued (demo_state 50000 True) s' =
       [StorageRead 0 50000 4 1 (replicate 32 1),
        StorageWrite 0 50000 2 1 (c_string ''Never gonna let you down.'' @ replicate 6 0xFF)] \<and>
     (\<forall>c \<in> set (issued (demo_state 50000 True) s'). count_within demo_env c)"
proof -
  obtain s' where r: "fragment War_c demo_env (demo_state 50000 True) = Inr s'"
    using demo_returns by blast
  have t: "tamperdetected (range_check (demo_state 50000 True))"
    by (simp add: range_check_def demo_state_def)
  have "s' = tamper_result demo_env (demo_state 50000 True)"
    using r fragment_tamper [OF t demo_defined, of War_c] by simp
  then have "issued (demo_state 50000 True) s' =
       [StorageRead 0 50000 4 1 (replicate 32 1),
        StorageWrite 0 50000 2 1 (c_string ''Never gonna let you down.'' @ replicate 6 0xFF)]"
    by (simp add: issued_tamper demo_sector demo_read_call demo_write_call demo_outcome demo_clobbered)
  with r sector_counts_clamped [OF r] show ?thesis by blast
qed

text \<open>
  C10. The fragment leaves \<^verbatim>\<open>cur_cmd.sector\<close>, \<^verbatim>\<open>cur_cmd.count\<close>, \<^verbatim>\<open>cur_cmd.data_select\<close>
  and \<^verbatim>\<open>cur_cmd.lun\<close> as they were: of the command record only \<^verbatim>\<open>last_result\<close> and the
  selected buffer change.
\<close>

theorem command_frame:
  assumes "fragment f e s = Inr s'"
  shows "cur_cmd s' = (cur_cmd s)\<lparr>data := (data (cur_cmd s))[data_select (cur_cmd s) := selected s'],
                                  last_result := last_result (cur_cmd s')\<rparr> \<and>
         sector (cur_cmd s') = sector (cur_cmd s) \<and>
         count (cur_cmd s') = count (cur_cmd s) \<and>
         data_select (cur_cmd s') = data_select (cur_cmd s) \<and>
         lun (cur_cmd s') = lun (cur_cmd s) \<and>
         data (cur_cmd s') = (data (cur_cmd s))[data_select (cur_cmd s) := selected s']"
  using assms
proof (cases rule: fragment_cases)
  case quiet
  then show ?thesis
    by (simp add: selected_quiet_result defined_on_select) (simp add: quiet_result_def)
next
  case tamper
  then show ?thesis
    by (simp add: selected_tamper_result defined_on_select) (simp add: tamper_result_def)
qed

theorem command_frame_witness:
  "\<exists>s'. fragment War_c demo_env (demo_state 50000 True) = Inr s' \<and>
     sector (cur_cmd s') = 50000 \<and> count (cur_cmd s') = 100 \<and>
     data_select (cur_cmd s') = 1 \<and> lun (cur_cmd s') = 0 \<and>
     data (cur_cmd s') = [replicate 32 0, c_string ''Never gonna let you down.'' @ replicate 6 0xFF]"
proof -
  obtain s' where r: "fragment War_c demo_env (demo_state 50000 True) = Inr s'"
    using demo_returns by blast
  have t: "tamperdetected (range_check (demo_state 50000 True))"
    by (simp add: range_check_def demo_state_def)
  have sel: "selected s' = c_string ''Never gonna let you down.'' @ replicate 6 0xFF"
    using r fragment_tamper [OF t demo_defined, of War_c]
    by (simp add: selected_tamper_result demo_select demo_outcome demo_clobbered)
  from command_frame [OF r] have "sector (cur_cmd s') = 50000 \<and> count (cur_cmd s') = 100 \<and>
     data_select (cur_cmd s') = 1 \<and> lun (cur_cmd s') = 0 \<and>
     data (cur_cmd s') = [replicate 32 0, selected s']"
    by (simp add: demo_state_def)
  with r sel show ?thesis by auto
qed

end
